theory Spec2Isabelle
  imports Main "HOL-Library.Word" "HOL-Library.Sublist"
begin

section \<open>Strings and the built-ins the handlers call\<close>

text \<open>
  A JavaScript string is a sequence of 16-bit code units. String literals of the source
  are ASCII and are written through \<open>ascii\<close>.
\<close>

type_synonym jsstring = "16 word list"

definition ascii :: "string \<Rightarrow> jsstring" where
  "ascii cs = map (\<lambda>c. of_nat (of_char c)) cs"

text \<open>
  \<open>String.prototype.trim\<close> removes WhiteSpace and LineTerminator code points from both
  ends (ECMA-262): TAB, LF, VT, FF, CR, SP, NBSP, U+1680, U+2000..U+200A, U+2028, U+2029,
  U+202F, U+205F, U+3000 and U+FEFF.
\<close>

definition is_js_whitespace :: "16 word \<Rightarrow> bool" where
  "is_js_whitespace c =
     (c \<in> set [0x09, 0x0A, 0x0B, 0x0C, 0x0D, 0x20, 0xA0, 0x1680,
                0x2000, 0x2001, 0x2002, 0x2003, 0x2004, 0x2005, 0x2006, 0x2007,
                0x2008, 0x2009, 0x200A, 0x2028, 0x2029, 0x202F, 0x205F, 0x3000, 0xFEFF])"

definition trim :: "jsstring \<Rightarrow> jsstring" where
  "trim s = rev (dropWhile is_js_whitespace (rev (dropWhile is_js_whitespace s)))"

text \<open>Truthiness of a \<open>string | null\<close> value: null and the empty string are falsy.\<close>

definition truthy :: "jsstring option \<Rightarrow> bool" where
  "truthy v = (case v of None \<Rightarrow> False | Some s \<Rightarrow> s \<noteq> [])"

text \<open>\<open>Array.prototype.join\<close> on an array of strings.\<close>

fun join :: "jsstring \<Rightarrow> jsstring list \<Rightarrow> jsstring" where
  "join sep [] = []"
| "join sep [x] = x"
| "join sep (x # y # ys) = x @ sep @ join sep (y # ys)"

text \<open>\<open>String.prototype.split\<close> with a one-unit separator: the empty string gives \<open>[""]\<close>.\<close>

fun split_on :: "16 word \<Rightarrow> jsstring \<Rightarrow> jsstring list" where
  "split_on sep [] = [[]]"
| "split_on sep (c # cs) =
     (if c = sep then [] # split_on sep cs
      else (case split_on sep cs of
              [] \<Rightarrow> [[c]]
            | p # ps \<Rightarrow> (c # p) # ps))"

text \<open>\<open>capturedImage?.split(',')[1]\<close>: undefined for null and when there is no comma.\<close>

definition base64_of :: "jsstring option \<Rightarrow> jsstring option" where
  "base64_of img =
     (case img of
        None \<Rightarrow> None
      | Some u \<Rightarrow> (case split_on 0x2C u of
                    _ # b # _ \<Rightarrow> Some b
                  | _ \<Rightarrow> None))"

section \<open>Data model (types.ts)\<close>

text \<open>
  Field names carry the interface's name as a prefix where two interfaces share a field
  name (\<open>id\<close>, \<open>name\<close>, \<open>ingredients\<close>).
\<close>

record Ingredient =
  ing_id :: jsstring
  ing_name :: jsstring

datatype Difficulty = Easy | Medium | Hard

record DishSuggestion =
  dish_id :: jsstring
  dish_name :: jsstring
  description :: jsstring
  prepTime :: jsstring
  difficulty :: Difficulty

record Alternative =
  alt_name :: jsstring
  effect :: jsstring

record Substitution =
  original :: jsstring
  alternatives :: "Alternative list"

record Source =
  title :: jsstring
  uri :: jsstring

record RecipeDetail =
  recipe_name :: jsstring
  recipe_ingredients :: "jsstring list"
  instructions :: "jsstring list"
  tips :: "jsstring list"
  substitutions :: "Substitution list"
  youtubeSearchUrl :: "jsstring option"
  sources :: "Source list option"

datatype AppState = Input | Suggesting | Results | Loading_recipe | Recipe

section \<open>The suggestion client (geminiService)\<close>

definition excludeText :: "jsstring list \<Rightarrow> jsstring" where
  "excludeText excludeDishes =
     (if length excludeDishes > 0
      then ascii '' DO NOT suggest any of these existing dishes: ''
           @ join (ascii '', '') excludeDishes @ ascii ''.''
      else [])"

definition getDishSuggestions_prompt :: "jsstring list \<Rightarrow> jsstring list \<Rightarrow> jsstring" where
  "getDishSuggestions_prompt ingredients excludeDishes =
     ascii ''Based on these ingredients: '' @ join (ascii '', '') ingredients
     @ ascii ''. Suggest 4 unique and delicious dishes I can cook.''
     @ excludeText excludeDishes
     @ ascii '' Focus on maximizing the use of these items. Provide output in JSON format.''"

datatype part = Text jsstring | InlineData jsstring jsstring

definition getDishSuggestions_contents ::
  "jsstring list \<Rightarrow> jsstring option \<Rightarrow> jsstring list \<Rightarrow> part list" where
  "getDishSuggestions_contents ingredients base64Image excludeDishes =
     (case base64Image of
        Some b \<Rightarrow> (if b \<noteq> [] then [InlineData (ascii ''image/jpeg'') b] else [])
      | None \<Rightarrow> [])
     @ [Text (getDishSuggestions_prompt ingredients excludeDishes)]"

text \<open>
  A call of the client, as the application issues it: the arguments of
  \<open>getDishSuggestions\<close> (the exclusion list defaults to \<open>[]\<close>) or of
  \<open>getRecipeDetail\<close>. The awaited promise settles later with a value of
  \<open>fetch_error + 'a\<close>: \<open>Inl\<close> is a rejection (transport or JSON parse failure).
\<close>

datatype request =
    SuggestReq "jsstring list" "jsstring option" "jsstring list"
  | DetailReq DishSuggestion "jsstring list"

datatype fetch_error = FetchError

section \<open>Session state and the handlers of App\<close>

record session =
  state :: AppState
  ingredients :: "Ingredient list"
  inputValue :: jsstring
  suggestions :: "DishSuggestion list"
  selectedRecipe :: "RecipeDetail option"
  error :: "jsstring option"
  capturedImage :: "jsstring option"
  isFetchingMore :: bool
  hasReachedEnd :: bool

definition init_session :: session where
  "init_session =
     \<lparr> state = Input, ingredients = [], inputValue = [], suggestions = [],
       selectedRecipe = None, error = None, capturedImage = None,
       isFetchingMore = False, hasReachedEnd = False \<rparr>"

text \<open>
  An async handler is split at its \<open>await\<close>: \<open>_start\<close> is the part run by the trigger
  and returns the request it issues (if any), \<open>_done\<close> is the continuation run when the
  promise settles. A continuation reads no state: it only calls setters, and
  \<open>setSuggestions\<close> with a functional update, so it acts on the committed session.
  \<open>crypto.randomUUID()\<close> is an input of \<open>addIngredient\<close>.
\<close>

definition setInputValue :: "jsstring \<Rightarrow> session \<Rightarrow> session" where
  "setInputValue v s = s\<lparr>inputValue := v\<rparr>"

definition addIngredient :: "jsstring \<Rightarrow> session \<Rightarrow> session" where
  "addIngredient uuid s =
     (if trim (inputValue s) = [] then s
      else s\<lparr>ingredients := ingredients s @ [\<lparr>ing_id = uuid, ing_name = trim (inputValue s)\<rparr>],
             inputValue := []\<rparr>)"

definition removeIngredient :: "jsstring \<Rightarrow> session \<Rightarrow> session" where
  "removeIngredient i s = s\<lparr>ingredients := filter (\<lambda>x. ing_id x \<noteq> i) (ingredients s)\<rparr>"

text \<open>\<open>reader.onloadend\<close> of \<open>handleFileUpload\<close>; \<open>reader.result\<close> is null after a failed read.\<close>

definition handleFileUpload_onloadend :: "jsstring option \<Rightarrow> session \<Rightarrow> session" where
  "handleFileUpload_onloadend result s = s\<lparr>capturedImage := result\<rparr>"

definition findDishes_start :: "session \<Rightarrow> session \<times> request option" where
  "findDishes_start s =
     (if length (ingredients s) = 0 \<and> \<not> truthy (capturedImage s)
      then (s\<lparr>error := Some (ascii ''Please add at least one ingredient or a photo.'')\<rparr>, None)
      else (s\<lparr>error := None, state := Suggesting, hasReachedEnd := False\<rparr>,
            Some (SuggestReq (map ing_name (ingredients s)) (base64_of (capturedImage s)) [])))"

definition findDishes_done ::
  "fetch_error + DishSuggestion list \<Rightarrow> session \<Rightarrow> session" where
  "findDishes_done r s =
     (case r of
        Inr results \<Rightarrow> s\<lparr>suggestions := results, state := Results\<rparr>
      | Inl err \<Rightarrow>
          s\<lparr>error := Some (ascii ''Failed to get suggestions. Please check your API key.''),
            state := Input\<rparr>)"

text \<open>
  \<open>loadMoreSuggestions\<close> is a \<open>useCallback\<close> value: each render whose \<open>ingredients\<close>,
  \<open>capturedImage\<close>, \<open>suggestions\<close>, \<open>isFetchingMore\<close> or \<open>hasReachedEnd\<close> differ creates a new
  one, which closes over the values of that render. The guard and the arguments of the
  request read the captured session \<open>c\<close>; \<open>setIsFetchingMore(true)\<close> acts on the
  committed session \<open>s\<close>.
\<close>

definition loadMoreSuggestions_start :: "session \<Rightarrow> session \<Rightarrow> session \<times> request option" where
  "loadMoreSuggestions_start c s =
     (if isFetchingMore c \<or> hasReachedEnd c then (s, None)
      else (s\<lparr>isFetchingMore := True\<rparr>,
            Some (SuggestReq (map ing_name (ingredients c)) (base64_of (capturedImage c))
                    (map dish_name (suggestions c)))))"

definition loadMoreSuggestions_done ::
  "fetch_error + DishSuggestion list \<Rightarrow> session \<Rightarrow> session" where
  "loadMoreSuggestions_done r s =
     (case r of
        Inr results \<Rightarrow>
          (if length results = 0 then s\<lparr>hasReachedEnd := True\<rparr>
           else s\<lparr>suggestions := suggestions s @ results\<rparr>)\<lparr>isFetchingMore := False\<rparr>
      | Inl err \<Rightarrow> s\<lparr>isFetchingMore := False\<rparr>)"

definition showRecipe_start :: "DishSuggestion \<Rightarrow> session \<Rightarrow> session \<times> request option" where
  "showRecipe_start dish s =
     (s\<lparr>state := Loading_recipe\<rparr>, Some (DetailReq dish (map ing_name (ingredients s))))"

text \<open>
  \<open>getRecipeDetail\<close> resolves with whatever \<open>JSON.parse\<close> returns, unchecked: \<open>None\<close> is
  the value \<open>null\<close> (a response body \<open>null\<close> without grounding chunks), \<open>Some\<close> is an
  object. \<open>showRecipe\<close> stores the value as it is.
\<close>

definition showRecipe_done :: "fetch_error + RecipeDetail option \<Rightarrow> session \<Rightarrow> session" where
  "showRecipe_done r s =
     (case r of
        Inr detail \<Rightarrow> s\<lparr>selectedRecipe := detail, state := Recipe\<rparr>
      | Inl err \<Rightarrow> s\<lparr>error := Some (ascii ''Failed to fetch recipe details.''), state := Results\<rparr>)"

text \<open>The two inline back buttons and the start-over button.\<close>

definition backToEdit :: "session \<Rightarrow> session" where
  "backToEdit s = s\<lparr>state := Input\<rparr>"

definition backToSuggestions :: "session \<Rightarrow> session" where
  "backToSuggestions s = s\<lparr>state := Results\<rparr>"

definition reset :: "session \<Rightarrow> session" where
  "reset s =
     s\<lparr>state := Input, suggestions := [], selectedRecipe := None, capturedImage := None,
       ingredients := [], hasReachedEnd := False\<rparr>"

section \<open>The running application\<close>

text \<open>
  The committed session together with what lies outside it: the render whose effect
  subscribed the connected \<open>IntersectionObserver\<close> (its callback calls the
  \<open>loadMoreSuggestions\<close> of that render; \<open>None\<close> when no observer is connected), the calls
  of the client in the order they were issued, and for each kind of call the number of
  promises that have not settled yet.
\<close>

record sys =
  sess :: session
  observer :: "session option"
  calls :: "request list"
  sugPending :: nat
  pagPending :: nat
  detPending :: nat

definition init_sys :: sys where
  "init_sys =
     \<lparr> sess = init_session, observer = None, calls = [],
       sugPending = 0, pagPending = 0, detPending = 0 \<rparr>"

datatype event =
    Type jsstring
  | Add jsstring
  | Remove jsstring
  | FileLoaded "jsstring option"
  | Submit
  | SuggestSettled "fetch_error + DishSuggestion list"
  | LoadMore
  | LoadMoreSettled "fetch_error + DishSuggestion list"
  | SelectDish DishSuggestion
  | RecipeSettled "fetch_error + RecipeDetail option"
  | BackToEdit
  | BackToSuggestions
  | StartOver
  | Rerender

definition issued :: "request option \<Rightarrow> nat" where
  "issued r = (case r of None \<Rightarrow> 0 | Some _ \<Rightarrow> 1)"

definition record_call :: "request option \<Rightarrow> request list \<Rightarrow> request list" where
  "record_call r cs = (case r of None \<Rightarrow> cs | Some q \<Rightarrow> cs @ [q])"

text \<open>
  The effect of a render: on \<open>results\<close> it disconnects the previous observer and
  subscribes one whose callback is the \<open>loadMoreSuggestions\<close> of this render; on any
  other screen it only disconnects. The effect is skipped when neither the screen nor the
  five captured values changed; the observer left connected then has captured the same
  values as a new one would.
\<close>

definition render :: "sys \<Rightarrow> sys" where
  "render y = y\<lparr>observer := (if state (sess y) = Results then Some (sess y) else None)\<rparr>"

text \<open>
  One event of the application; \<open>None\<close> when the event cannot occur in that state. A
  control exists only on the screen whose block renders it: the text field, the add and
  remove buttons and the submit button on \<open>input\<close>; the dish cards and the back-to-edit
  button on \<open>results\<close>; the back-to-suggestions and start-over buttons in the block
  guarded by \<open>state === 'recipe' && selectedRecipe\<close>. The handlers of these controls
  are those of the committed session. A promise settles only if its call is pending; a
  file read may finish on any screen. \<open>LoadMore\<close> is a callback of the connected observer
  with an intersecting entry: it runs the \<open>loadMoreSuggestions\<close> of the render that
  subscribed that observer, which stays connected until \<open>Rerender\<close>, the next render's
  effect, replaces it. The \<open>disabled\<close> attribute of the submit button is not modelled, so
  that the guard inside \<open>findDishes\<close> is exercised: the events allowed here include
  those of the page.
\<close>

fun step :: "event \<Rightarrow> sys \<Rightarrow> sys option" where
  "step (Type v) y =
     (if state (sess y) = Input then Some (y\<lparr>sess := setInputValue v (sess y)\<rparr>) else None)"
| "step (Add uuid) y =
     (if state (sess y) = Input then Some (y\<lparr>sess := addIngredient uuid (sess y)\<rparr>) else None)"
| "step (Remove i) y =
     (if state (sess y) = Input then Some (y\<lparr>sess := removeIngredient i (sess y)\<rparr>) else None)"
| "step (FileLoaded r) y = Some (y\<lparr>sess := handleFileUpload_onloadend r (sess y)\<rparr>)"
| "step Submit y =
     (if state (sess y) = Input
      then (case findDishes_start (sess y) of
              (s', r) \<Rightarrow> Some (y\<lparr>sess := s', calls := record_call r (calls y),
                                sugPending := sugPending y + issued r\<rparr>))
      else None)"
| "step (SuggestSettled r) y =
     (if sugPending y > 0
      then Some (y\<lparr>sess := findDishes_done r (sess y), sugPending := sugPending y - 1\<rparr>)
      else None)"
| "step LoadMore y =
     (case observer y of
        None \<Rightarrow> None
      | Some c \<Rightarrow>
          (case loadMoreSuggestions_start c (sess y) of
             (s', r) \<Rightarrow> Some (y\<lparr>sess := s', calls := record_call r (calls y),
                               pagPending := pagPending y + issued r\<rparr>)))"
| "step (LoadMoreSettled r) y =
     (if pagPending y > 0
      then Some (y\<lparr>sess := loadMoreSuggestions_done r (sess y), pagPending := pagPending y - 1\<rparr>)
      else None)"
| "step (SelectDish dish) y =
     (if state (sess y) = Results \<and> dish \<in> set (suggestions (sess y))
      then (case showRecipe_start dish (sess y) of
              (s', r) \<Rightarrow> Some (y\<lparr>sess := s', calls := record_call r (calls y),
                                detPending := detPending y + issued r\<rparr>))
      else None)"
| "step (RecipeSettled r) y =
     (if detPending y > 0
      then Some (y\<lparr>sess := showRecipe_done r (sess y), detPending := detPending y - 1\<rparr>)
      else None)"
| "step BackToEdit y =
     (if state (sess y) = Results then Some (y\<lparr>sess := backToEdit (sess y)\<rparr>) else None)"
| "step BackToSuggestions y =
     (if state (sess y) = Recipe \<and> selectedRecipe (sess y) \<noteq> None
      then Some (y\<lparr>sess := backToSuggestions (sess y)\<rparr>) else None)"
| "step StartOver y =
     (if state (sess y) = Recipe \<and> selectedRecipe (sess y) \<noteq> None
      then Some (y\<lparr>sess := reset (sess y)\<rparr>) else None)"
| "step Rerender y = Some (render y)"

fun run :: "event list \<Rightarrow> sys \<Rightarrow> sys option" where
  "run [] y = Some y"
| "run (e # es) y = (case step e y of None \<Rightarrow> None | Some y' \<Rightarrow> run es y')"

inductive reachable :: "sys \<Rightarrow> bool" where
  start: "reachable init_sys"
| after: "reachable y \<Longrightarrow> step e y = Some y' \<Longrightarrow> reachable y'"




subsection \<open>Example sessions\<close>

text \<open>The state the application is in after a list of events from the initial state.\<close>

definition reached :: "event list \<Rightarrow> sys" where
  "reached es = (case run es init_sys of Some y \<Rightarrow> y | None \<Rightarrow> init_sys)"

definition soup :: DishSuggestion where
  "soup = \<lparr>dish_id = ascii ''1'', dish_name = ascii ''Egg soup'', description = ascii ''Light'',
           prepTime = ascii ''15 min'', difficulty = Easy\<rparr>"

definition omelette :: DishSuggestion where
  "omelette = \<lparr>dish_id = ascii ''2'', dish_name = ascii ''Omelette'', description = ascii ''Quick'',
               prepTime = ascii ''10 min'', difficulty = Medium\<rparr>"

definition soup_recipe :: RecipeDetail where
  "soup_recipe = \<lparr>recipe_name = ascii ''Egg soup'', recipe_ingredients = [ascii ''egg''],
                  instructions = [ascii ''Boil'', ascii ''Stir''], tips = [], substitutions = [],
                  youtubeSearchUrl = None, sources = None\<rparr>"

text \<open>
  The user types \<open>" egg "\<close>, adds it, types \<open>"salt"\<close> without adding it and submits; the
  fetch returns one dish and the results screen is rendered; the user opens the dish.
\<close>

definition to_suggesting :: "event list" where
  "to_suggesting = [Type (ascii '' egg ''), Add (ascii ''u1''), Type (ascii ''salt''), Submit]"

definition to_results :: "event list" where
  "to_results = to_suggesting @ [SuggestSettled (Inr [soup]), Rerender]"

definition to_recipe :: "event list" where
  "to_recipe = to_results @ [SelectDish soup, RecipeSettled (Inr (Some soup_recipe))]"

text \<open>
  The same, but a pagination fetch is started on \<open>results\<close> and the first detail fetch
  fails before the second one succeeds.
\<close>

definition to_recipe_after_failure :: "event list" where
  "to_recipe_after_failure =
     to_results @ [LoadMore, SelectDish soup, RecipeSettled (Inl FetchError),
                   SelectDish soup, RecipeSettled (Inr (Some soup_recipe))]"

text \<open>
  On \<open>results\<close>, the observer subscribed by the render with both pagination flags clear
  calls back twice before the next render replaces it.
\<close>

definition two_triggers :: "event list" where
  "two_triggers = to_results @ [LoadMore, LoadMore]"

text \<open>
  After that, the page is rendered, the first fetch returns one dish, the page is
  rendered again and the second fetch returns no dish.
\<close>

definition to_end_reached :: "event list" where
  "to_end_reached =
     two_triggers @ [Rerender, LoadMoreSettled (Inr [omelette]), Rerender, LoadMoreSettled (Inr [])]"

section \<open>Invariants of the running application\<close>

text \<open>
  In every reachable state a suggestion call is pending exactly on \<open>suggesting\<close> and a
  detail call exactly on \<open>loading_recipe\<close>.
\<close>

definition pending_inv :: "sys \<Rightarrow> bool" where
  "pending_inv y =
     (sugPending y = (if state (sess y) = Suggesting then 1 else 0) \<and>
      detPending y = (if state (sess y) = Loading_recipe then 1 else 0))"


lemmas handler_defs =
  setInputValue_def addIngredient_def removeIngredient_def handleFileUpload_onloadend_def
  findDishes_start_def findDishes_done_def loadMoreSuggestions_start_def
  loadMoreSuggestions_done_def showRecipe_start_def showRecipe_done_def
  backToEdit_def backToSuggestions_def reset_def issued_def record_call_def render_def

lemmas example_defs = reached_def to_suggesting_def to_results_def to_recipe_def
  to_recipe_after_failure_def two_triggers_def to_end_reached_def
  soup_def omelette_def soup_recipe_def init_sys_def init_session_def
  ascii_def trim_def is_js_whitespace_def truthy_def base64_of_def

lemma pending_inv_init: "pending_inv init_sys"
  by (simp add: pending_inv_def init_sys_def init_session_def)

lemma pending_inv_step:
  assumes "pending_inv y" and "step e y = Some y'"
  shows "pending_inv y'"
  using assms
  by (cases e)
     (auto simp: pending_inv_def handler_defs split: if_splits sum.splits option.splits)

lemma reachable_pending_inv: "reachable y \<Longrightarrow> pending_inv y"
  by (induction rule: reachable.induct) (auto intro: pending_inv_init pending_inv_step)

lemma run_reachable: "reachable y \<Longrightarrow> run es y = Some y' \<Longrightarrow> reachable y'"
  by (induction es arbitrary: y) (auto split: option.splits intro: reachable.after)

lemma reached_reachable: "run es init_sys \<noteq> None \<Longrightarrow> reachable (reached es)"
  using run_reachable [OF reachable.start, of es] by (auto simp: reached_def)

subsection \<open>Before the first navigation\<close>





section \<open>Facts about trim and join\<close>

lemma trim_split:
  "\<exists>pre post. b = pre @ trim b @ post \<and> (\<forall>c\<in>set pre. is_js_whitespace c) \<and>
     (\<forall>c\<in>set post. is_js_whitespace c)"
proof -
  let ?P = is_js_whitespace
  let ?m = "dropWhile ?P b"
  have 1: "b = takeWhile ?P b @ ?m" by simp
  have "trim b @ rev (takeWhile ?P (rev ?m))
        = rev (takeWhile ?P (rev ?m) @ dropWhile ?P (rev ?m))"
    by (simp only: trim_def rev_append)
  also have "\<dots> = rev (rev ?m)" by (simp only: takeWhile_dropWhile_id)
  finally have 2: "?m = trim b @ rev (takeWhile ?P (rev ?m))" by simp
  have 3: "\<forall>c\<in>set (takeWhile ?P b). ?P c" by (auto dest: set_takeWhileD)
  have 4: "\<forall>c\<in>set (rev (takeWhile ?P (rev ?m))). ?P c" by (auto dest: set_takeWhileD)
  from 1 2 have "b = takeWhile ?P b @ trim b @ rev (takeWhile ?P (rev ?m))" by simp
  with 3 4 show ?thesis by blast
qed

lemma trim_ends:
  assumes "trim b \<noteq> []"
  shows "\<not> is_js_whitespace (hd (trim b)) \<and> \<not> is_js_whitespace (last (trim b))"
proof -
  let ?P = is_js_whitespace
  let ?m = "dropWhile ?P b"
  let ?r = "dropWhile ?P (rev ?m)"
  from assms have rne: "?r \<noteq> []" by (simp add: trim_def)
  then have "\<not> ?P (hd ?r)" by (rule hd_dropWhile)
  then have l: "\<not> ?P (last (trim b))" using rne by (simp add: trim_def last_rev)
  from rne have mne: "?m \<noteq> []" by (metis dropWhile.simps(1) rev.simps(1))
  then have hm: "\<not> ?P (hd ?m)" by (rule hd_dropWhile)
  obtain k where k: "?r = drop k (rev ?m)" by (metis dropWhile_eq_drop)
  with rne have "last ?r = last (rev ?m)" by (simp add: last_drop)
  then have "hd (trim b) = hd ?m" using rne mne by (simp add: trim_def hd_rev last_rev)
  with hm l show ?thesis by simp
qed

lemma trim_empty_iff: "trim b = [] \<longleftrightarrow> (\<forall>c\<in>set b. is_js_whitespace c)"
proof
  assume e: "trim b = []"
  obtain pre post where "b = pre @ trim b @ post" "\<forall>c\<in>set pre. is_js_whitespace c"
    "\<forall>c\<in>set post. is_js_whitespace c" using trim_split [of b] by blast
  with e show "\<forall>c\<in>set b. is_js_whitespace c" by (metis UnE append_Nil set_append)
next
  assume "\<forall>c\<in>set b. is_js_whitespace c"
  then have d: "dropWhile is_js_whitespace b = []" by (simp only: dropWhile_eq_Nil_conv)
  show "trim b = []" unfolding trim_def d by simp
qed


lemma join_contains: "n \<in> set xs \<Longrightarrow> sublist n (join sep xs)"
proof (induction sep xs rule: join.induct)
  case (1 sep)
  then show ?case by simp
next
  case (2 sep x)
  then show ?case by simp
next
  case (3 sep x y ys)
  show ?case
  proof (cases "n = x")
    case True
    then show ?thesis by simp
  next
    case False
    with 3 have "sublist n (join sep (y # ys))" by simp
    then obtain ps ss where "join sep (y # ys) = ps @ n @ ss" by (auto simp: sublist_def)
    then have "join sep (x # y # ys) = (x @ sep @ ps) @ n @ ss" by simp
    then show ?thesis unfolding sublist_def by blast
  qed
qed


section \<open>Properties\<close>




text \<open>
  C2. Submitting from \<open>input\<close> moves to \<open>suggesting\<close> with the error cleared, and
  issues a suggestion request, exactly when there is at least one ingredient or an image
  is present; with no ingredient and no image the screen stays \<open>input\<close>, the error
  becomes non-null and no request is issued. An image is present when \<open>capturedImage\<close>
  is truthy: a data URL, which is never the empty string.
\<close>

theorem findDishes_submit_guard:
  "state s = Input \<Longrightarrow>
   ((state (fst (findDishes_start s)) = Suggesting \<and> error (fst (findDishes_start s)) = None)
      = (ingredients s \<noteq> [] \<or> truthy (capturedImage s))) \<and>
   ((snd (findDishes_start s) \<noteq> None) = (ingredients s \<noteq> [] \<or> truthy (capturedImage s))) \<and>
   (ingredients s = [] \<and> \<not> truthy (capturedImage s) \<longrightarrow>
      state (fst (findDishes_start s)) = Input \<and> error (fst (findDishes_start s)) \<noteq> None \<and>
      snd (findDishes_start s) = None)"
  by (auto simp: findDishes_start_def)

theorem findDishes_submit_guard_witness:
  "state init_session = Input \<and> ingredients init_session = [] \<and>
   \<not> truthy (capturedImage init_session) \<and>
   state (fst (findDishes_start init_session)) = Input \<and>
   error (fst (findDishes_start init_session)) \<noteq> None \<and>
   snd (findDishes_start init_session) = None \<and>
   state (sess (reached [Type (ascii ''egg''), Add (ascii ''u1'')])) = Input \<and>
   ingredients (sess (reached [Type (ascii ''egg''), Add (ascii ''u1'')])) \<noteq> [] \<and>
   state (fst (findDishes_start (sess (reached [Type (ascii ''egg''), Add (ascii ''u1'')])))) = Suggesting \<and>
   error (fst (findDishes_start (sess (reached [Type (ascii ''egg''), Add (ascii ''u1'')])))) = None \<and>
   snd (findDishes_start (sess (reached [Type (ascii ''egg''), Add (ascii ''u1'')]))) \<noteq> None"
proof -
  let ?s = "sess (reached [Type (ascii ''egg''), Add (ascii ''u1'')])"
  have a: "state init_session = Input \<and> ingredients init_session = [] \<and>
           \<not> truthy (capturedImage init_session)"
    by (simp add: init_session_def truthy_def)
  have b: "state ?s = Input \<and> ingredients ?s \<noteq> []"
    by (simp add: example_defs handler_defs)
  show ?thesis
    using a b findDishes_submit_guard [of init_session] findDishes_submit_guard [of ?s]
    by blast
qed

text \<open>
  C3. A failing initial suggestion fetch puts the screen on \<open>input\<close> with a non-null
  error message and leaves the suggestion list as it was; in the running application
  such a failure arrives on the \<open>suggesting\<close> screen.
\<close>

theorem findDishes_failure_returns_to_input:
  "state (findDishes_done (Inl e) s) = Input \<and>
   error (findDishes_done (Inl e) s) \<noteq> None \<and>
   suggestions (findDishes_done (Inl e) s) = suggestions s \<and>
   (reachable y \<longrightarrow> step (SuggestSettled (Inl e)) y = Some y' \<longrightarrow>
      state (sess y) = Suggesting \<and> state (sess y') = Input \<and> error (sess y') \<noteq> None \<and>
      suggestions (sess y') = suggestions (sess y))"
proof -
  have "reachable y \<Longrightarrow> step (SuggestSettled (Inl e)) y = Some y' \<Longrightarrow> state (sess y) = Suggesting"
    using reachable_pending_inv [of y] by (auto simp: pending_inv_def split: if_splits)
  then show ?thesis by (auto simp: findDishes_done_def split: if_splits)
qed

theorem findDishes_failure_returns_to_input_witness:
  "reachable (reached to_suggesting) \<and>
   step (SuggestSettled (Inl FetchError)) (reached to_suggesting)
     = Some (reached (to_suggesting @ [SuggestSettled (Inl FetchError)])) \<and>
   state (sess (reached to_suggesting)) = Suggesting \<and>
   state (sess (reached (to_suggesting @ [SuggestSettled (Inl FetchError)]))) = Input \<and>
   error (sess (reached (to_suggesting @ [SuggestSettled (Inl FetchError)]))) \<noteq> None"
proof -
  have r: "reachable (reached to_suggesting)"
    by (rule reached_reachable) (simp add: example_defs handler_defs)
  have s: "step (SuggestSettled (Inl FetchError)) (reached to_suggesting)
           = Some (reached (to_suggesting @ [SuggestSettled (Inl FetchError)]))"
    by (simp add: example_defs handler_defs)
  show ?thesis
    using r s findDishes_failure_returns_to_input
      [of FetchError "sess (reached to_suggesting)" "reached to_suggesting"
          "reached (to_suggesting @ [SuggestSettled (Inl FetchError)])"]
    by blast
qed

text \<open>
  C4. A trigger arriving while \<open>isFetchingMore\<close> is set should issue no fetch, so that
  at most one pagination fetch is in flight. The guard of \<open>loadMoreSuggestions\<close> reads
  the flags of the render that subscribed the observer. When that observer calls back
  twice before the next render replaces it, the second callback finds \<open>isFetchingMore\<close>
  committed and one fetch pending, passes the guard all the same, changes the state and
  issues a second request with the same arguments: two pagination fetches are pending.
\<close>

theorem stale_trigger_two_in_flight:
  "reachable (reached two_triggers) \<and>
   state (sess (reached (to_results @ [LoadMore]))) = Results \<and>
   isFetchingMore (sess (reached (to_results @ [LoadMore]))) \<and>
   pagPending (reached (to_results @ [LoadMore])) = 1 \<and>
   step LoadMore (reached (to_results @ [LoadMore])) = Some (reached two_triggers) \<and>
   reached two_triggers \<noteq> reached (to_results @ [LoadMore]) \<and>
   pagPending (reached two_triggers) = 2 \<and>
   calls (reached two_triggers)
     = [SuggestReq [ascii ''egg''] None [],
        SuggestReq [ascii ''egg''] None [ascii ''Egg soup''],
        SuggestReq [ascii ''egg''] None [ascii ''Egg soup'']]"
proof -
  have r: "reachable (reached two_triggers)"
    by (rule reached_reachable) (simp add: example_defs handler_defs)
  have a: "state (sess (reached (to_results @ [LoadMore]))) = Results \<and>
   isFetchingMore (sess (reached (to_results @ [LoadMore]))) \<and>
   pagPending (reached (to_results @ [LoadMore])) = 1"
    by (simp add: example_defs handler_defs)
  have b: "step LoadMore (reached (to_results @ [LoadMore])) = Some (reached two_triggers)"
    by (simp add: example_defs handler_defs)
  have c: "pagPending (reached two_triggers) = 2 \<and>
   calls (reached two_triggers)
     = [SuggestReq [ascii ''egg''] None [],
        SuggestReq [ascii ''egg''] None [ascii ''Egg soup''],
        SuggestReq [ascii ''egg''] None [ascii ''Egg soup'']]"
    by (simp add: example_defs handler_defs)
  from a c have d: "reached two_triggers \<noteq> reached (to_results @ [LoadMore])" by auto
  from r a b c d show ?thesis by blast
qed

text \<open>
  C5. After a pagination fetch has returned no dish, a further trigger on the same
  results screen should perform no fetch. Here two fetches overlap as above; the first
  returns a dish and clears \<open>isFetchingMore\<close>, the page is rendered with both flags
  clear, and the second returns no dish and sets \<open>hasReachedEnd\<close>, leaving the two
  suggestions as they are. A callback of the observer subscribed by that last render
  then passes the guard, although \<open>hasReachedEnd\<close> is committed, and issues a fetch.
\<close>

theorem stale_trigger_fetches_after_end:
  "reachable (reached to_end_reached) \<and>
   state (sess (reached to_end_reached)) = Results \<and>
   hasReachedEnd (sess (reached to_end_reached)) \<and>
   suggestions (sess (reached to_end_reached)) = [soup, omelette] \<and>
   pagPending (reached to_end_reached) = 0 \<and>
   step LoadMore (reached to_end_reached) = Some (reached (to_end_reached @ [LoadMore])) \<and>
   pagPending (reached (to_end_reached @ [LoadMore])) = 1 \<and>
   length (calls (reached (to_end_reached @ [LoadMore])))
     = Suc (length (calls (reached to_end_reached)))"
proof -
  have r: "reachable (reached to_end_reached)"
    by (rule reached_reachable) (simp add: example_defs handler_defs)
  have a: "state (sess (reached to_end_reached)) = Results \<and>
   hasReachedEnd (sess (reached to_end_reached)) \<and>
   suggestions (sess (reached to_end_reached)) = [soup, omelette] \<and>
   pagPending (reached to_end_reached) = 0"
    by (simp add: example_defs handler_defs)
  have b: "step LoadMore (reached to_end_reached) = Some (reached (to_end_reached @ [LoadMore]))"
    by (simp add: example_defs handler_defs)
  have c: "pagPending (reached (to_end_reached @ [LoadMore])) = 1 \<and>
   length (calls (reached (to_end_reached @ [LoadMore])))
     = Suc (length (calls (reached to_end_reached)))"
    by (simp add: example_defs handler_defs)
  from r a b c show ?thesis by blast
qed

text \<open>
  C6. A pagination fetch that succeeds with at least one item appends the new items
  after the existing suggestions, in their order, and does not touch \<open>hasReachedEnd\<close>,
  as a function of any session and at every settlement in the running application.
\<close>

theorem loadMore_appends_page:
  "(rs \<noteq> [] \<longrightarrow>
      suggestions (loadMoreSuggestions_done (Inr rs) s) = suggestions s @ rs \<and>
      hasReachedEnd (loadMoreSuggestions_done (Inr rs) s) = hasReachedEnd s) \<and>
   (reachable y \<longrightarrow> rs \<noteq> [] \<longrightarrow> step (LoadMoreSettled (Inr rs)) y = Some y' \<longrightarrow>
      suggestions (sess y') = suggestions (sess y) @ rs \<and>
      hasReachedEnd (sess y') = hasReachedEnd (sess y))"
proof -
  have a: "rs \<noteq> [] \<longrightarrow>
      suggestions (loadMoreSuggestions_done (Inr rs) s) = suggestions s @ rs \<and>
      hasReachedEnd (loadMoreSuggestions_done (Inr rs) s) = hasReachedEnd s"
    by (simp add: loadMoreSuggestions_done_def)
  have b: "suggestions (sess y') = suggestions (sess y) @ rs \<and>
           hasReachedEnd (sess y') = hasReachedEnd (sess y)"
    if "rs \<noteq> []" "step (LoadMoreSettled (Inr rs)) y = Some y'"
    using that by (auto simp: loadMoreSuggestions_done_def split: if_splits)
  from a b show ?thesis by blast
qed

theorem loadMore_appends_page_witness:
  "reachable (reached (to_results @ [LoadMore])) \<and> [omelette] \<noteq> [] \<and>
   step (LoadMoreSettled (Inr [omelette])) (reached (to_results @ [LoadMore]))
     = Some (reached (to_results @ [LoadMore, LoadMoreSettled (Inr [omelette])])) \<and>
   suggestions (sess (reached (to_results @ [LoadMore, LoadMoreSettled (Inr [omelette])])))
     = suggestions (sess (reached (to_results @ [LoadMore]))) @ [omelette] \<and>
   \<not> hasReachedEnd (sess (reached (to_results @ [LoadMore, LoadMoreSettled (Inr [omelette])])))"
proof -
  let ?y = "reached (to_results @ [LoadMore])"
  let ?y' = "reached (to_results @ [LoadMore, LoadMoreSettled (Inr [omelette])])"
  have r: "reachable ?y" by (rule reached_reachable) (simp add: example_defs handler_defs)
  have s: "step (LoadMoreSettled (Inr [omelette])) ?y = Some ?y'"
    by (simp add: example_defs handler_defs)
  have h: "\<not> hasReachedEnd (sess ?y)" by (simp add: example_defs handler_defs)
  show ?thesis
    using r s h loadMore_appends_page [of "[omelette]" "sess ?y" ?y ?y']
    by blast
qed

text \<open>
  C7. A failing pagination fetch clears \<open>isFetchingMore\<close> and leaves
  \<open>hasReachedEnd\<close> and the error message untouched. In the running application one
  pending fetch fewer remains, and when \<open>hasReachedEnd\<close> was false and the screen is
  \<open>results\<close>, a trigger after the next render issues a new fetch.
\<close>

theorem loadMore_failure_is_silent:
  "\<not> isFetchingMore (loadMoreSuggestions_done (Inl e) s) \<and>
   hasReachedEnd (loadMoreSuggestions_done (Inl e) s) = hasReachedEnd s \<and>
   error (loadMoreSuggestions_done (Inl e) s) = error s \<and>
   (reachable y \<longrightarrow> step (LoadMoreSettled (Inl e)) y = Some y' \<longrightarrow>
      \<not> isFetchingMore (sess y') \<and> hasReachedEnd (sess y') = hasReachedEnd (sess y) \<and>
      error (sess y') = error (sess y) \<and> Suc (pagPending y') = pagPending y \<and>
      (state (sess y') = Results \<longrightarrow> \<not> hasReachedEnd (sess y) \<longrightarrow>
         (\<exists>y''. step LoadMore (render y') = Some y'' \<and>
                pagPending y'' = Suc (pagPending y') \<and>
                length (calls y'') = Suc (length (calls y')))))"
proof -
  have a: "\<not> isFetchingMore (loadMoreSuggestions_done (Inl e) s) \<and>
   hasReachedEnd (loadMoreSuggestions_done (Inl e) s) = hasReachedEnd s \<and>
   error (loadMoreSuggestions_done (Inl e) s) = error s"
    by (simp add: loadMoreSuggestions_done_def)
  have b: "\<not> isFetchingMore (sess y') \<and> hasReachedEnd (sess y') = hasReachedEnd (sess y) \<and>
      error (sess y') = error (sess y) \<and> Suc (pagPending y') = pagPending y \<and>
      (state (sess y') = Results \<longrightarrow> \<not> hasReachedEnd (sess y) \<longrightarrow>
         (\<exists>y''. step LoadMore (render y') = Some y'' \<and>
                pagPending y'' = Suc (pagPending y') \<and>
                length (calls y'') = Suc (length (calls y'))))"
    if "step (LoadMoreSettled (Inl e)) y = Some y'"
    using that
    by (auto simp: loadMoreSuggestions_done_def loadMoreSuggestions_start_def render_def
          issued_def record_call_def split: if_splits)
  from a b show ?thesis by blast
qed

theorem loadMore_failure_is_silent_witness:
  "reachable (reached (to_results @ [LoadMore])) \<and>
   step (LoadMoreSettled (Inl FetchError)) (reached (to_results @ [LoadMore]))
     = Some (reached (to_results @ [LoadMore, LoadMoreSettled (Inl FetchError)])) \<and>
   state (sess (reached (to_results @ [LoadMore, LoadMoreSettled (Inl FetchError)]))) = Results \<and>
   \<not> isFetchingMore (sess (reached (to_results @ [LoadMore, LoadMoreSettled (Inl FetchError)]))) \<and>
   \<not> hasReachedEnd (sess (reached (to_results @ [LoadMore, LoadMoreSettled (Inl FetchError)]))) \<and>
   error (sess (reached (to_results @ [LoadMore, LoadMoreSettled (Inl FetchError)]))) = None \<and>
   pagPending (reached (to_results @ [LoadMore, LoadMoreSettled (Inl FetchError)])) = 0"
proof -
  let ?y = "reached (to_results @ [LoadMore])"
  let ?y' = "reached (to_results @ [LoadMore, LoadMoreSettled (Inl FetchError)])"
  have r: "reachable ?y" by (rule reached_reachable) (simp add: example_defs handler_defs)
  have s: "step (LoadMoreSettled (Inl FetchError)) ?y = Some ?y'"
    by (simp add: example_defs handler_defs)
  have t: "state (sess ?y') = Results \<and> error (sess ?y) = None \<and> \<not> hasReachedEnd (sess ?y) \<and>
           pagPending ?y = 1"
    by (simp add: example_defs handler_defs)
  have u: "\<not> isFetchingMore (sess ?y') \<and> hasReachedEnd (sess ?y') = hasReachedEnd (sess ?y) \<and>
      error (sess ?y') = error (sess ?y) \<and> Suc (pagPending ?y') = pagPending ?y"
    using r s loadMore_failure_is_silent [of FetchError "sess ?y" ?y ?y'] by blast
  from r s t u show ?thesis by auto
qed

text \<open>
  C8 (as amended). Reset sets the screen to \<open>input\<close>, empties the ingredient and
  suggestion lists, nulls the selected recipe and the captured image and clears
  \<open>hasReachedEnd\<close>; it leaves the free-text buffer, the error message and
  \<open>isFetchingMore\<close> as they were, so the session equals the initial one exactly when
  those three already had their initial values.
\<close>

theorem reset_clears_six_fields:
  "state (reset s) = Input \<and> ingredients (reset s) = [] \<and> suggestions (reset s) = [] \<and>
   selectedRecipe (reset s) = None \<and> capturedImage (reset s) = None \<and>
   hasReachedEnd (reset s) = False \<and>
   inputValue (reset s) = inputValue s \<and> error (reset s) = error s \<and>
   isFetchingMore (reset s) = isFetchingMore s \<and>
   ((reset s = init_session) = (inputValue s = [] \<and> error s = None \<and> isFetchingMore s = False))"
  by (cases s) (auto simp: reset_def init_session_def)

text \<open>
  Counterexample to C8 as stated: on the recipe screen with \<open>"salt"\<close> left in the
  buffer, the message of an earlier failed detail fetch still set and a pagination fetch
  still pending, reset does not give the initial session.
\<close>

theorem reset_keeps_buffer_error_and_flag:
  "reachable (reached to_recipe_after_failure) \<and>
   state (sess (reached to_recipe_after_failure)) = Recipe \<and>
   step StartOver (reached to_recipe_after_failure) \<noteq> None \<and>
   reset (sess (reached to_recipe_after_failure)) \<noteq> init_session \<and>
   inputValue (reset (sess (reached to_recipe_after_failure))) = ascii ''salt'' \<and>
   error (reset (sess (reached to_recipe_after_failure)))
     = Some (ascii ''Failed to fetch recipe details.'') \<and>
   isFetchingMore (reset (sess (reached to_recipe_after_failure))) = True"
proof -
  have r: "reachable (reached to_recipe_after_failure)"
    by (rule reached_reachable) (simp add: example_defs handler_defs)
  have s: "state (sess (reached to_recipe_after_failure)) = Recipe \<and>
   step StartOver (reached to_recipe_after_failure) \<noteq> None \<and>
   reset (sess (reached to_recipe_after_failure)) \<noteq> init_session \<and>
   inputValue (reset (sess (reached to_recipe_after_failure))) = ascii ''salt'' \<and>
   error (reset (sess (reached to_recipe_after_failure)))
     = Some (ascii ''Failed to fetch recipe details.'') \<and>
   isFetchingMore (reset (sess (reached to_recipe_after_failure))) = True"
    by (simp add: example_defs handler_defs)
  from r s show ?thesis by blast
qed

text \<open>
  C9. The request a pagination trigger issues carries as exclusion list the names of
  all suggestions of the render whose callback ran, that is of the suggestions shown,
  in order. The client sends the prompt as the last content part; the prompt starts
  with the ingredient list followed by the sentence asking for 4 dishes, and for a
  non-empty exclusion list it contains the DO NOT suggest directive followed by the
  joined exclusion list, in which every excluded name occurs.
\<close>

theorem pagination_excludes_shown_names:
  "(snd (loadMoreSuggestions_start c s) = Some q \<longrightarrow>
      (\<exists>a b. q = SuggestReq a b (map dish_name (suggestions c)))) \<and>
   last (getDishSuggestions_contents ings img ex) = Text (getDishSuggestions_prompt ings ex) \<and>
   prefix (ascii ''Based on these ingredients: '' @ join (ascii '', '') ings
           @ ascii ''. Suggest 4 unique and delicious dishes I can cook.'')
          (getDishSuggestions_prompt ings ex) \<and>
   (ex \<noteq> [] \<longrightarrow>
      sublist (ascii '' DO NOT suggest any of these existing dishes: ''
               @ join (ascii '', '') ex @ ascii ''.'')
              (getDishSuggestions_prompt ings ex) \<and>
      (\<forall>n\<in>set ex. sublist n (join (ascii '', '') ex)))"
proof -
  have a: "snd (loadMoreSuggestions_start c s) = Some q \<longrightarrow>
      (\<exists>a b. q = SuggestReq a b (map dish_name (suggestions c)))"
    by (auto simp: loadMoreSuggestions_start_def split: if_splits)
  have b: "last (getDishSuggestions_contents ings img ex) = Text (getDishSuggestions_prompt ings ex)"
    by (simp add: getDishSuggestions_contents_def)
  have c: "prefix (ascii ''Based on these ingredients: '' @ join (ascii '', '') ings
           @ ascii ''. Suggest 4 unique and delicious dishes I can cook.'')
          (getDishSuggestions_prompt ings ex)"
    unfolding getDishSuggestions_prompt_def prefix_def by simp
  have d: "sublist (ascii '' DO NOT suggest any of these existing dishes: ''
               @ join (ascii '', '') ex @ ascii ''.'')
              (getDishSuggestions_prompt ings ex)" if "ex \<noteq> []"
  proof -
    let ?d = "ascii '' DO NOT suggest any of these existing dishes: ''
               @ join (ascii '', '') ex @ ascii ''.''"
    from that have "excludeText ex = ?d" by (simp add: excludeText_def)
    then have "getDishSuggestions_prompt ings ex =
       (ascii ''Based on these ingredients: '' @ join (ascii '', '') ings
           @ ascii ''. Suggest 4 unique and delicious dishes I can cook.'') @ ?d @
        ascii '' Focus on maximizing the use of these items. Provide output in JSON format.''"
      by (simp add: getDishSuggestions_prompt_def)
    then show ?thesis unfolding sublist_def by blast
  qed
  have e: "\<forall>n\<in>set ex. sublist n (join (ascii '', '') ex)"
    by (simp add: join_contains)
  from a b c d e show ?thesis by blast
qed

theorem pagination_excludes_shown_names_witness:
  "snd (loadMoreSuggestions_start (sess (reached to_results)) (sess (reached to_results)))
     = Some (SuggestReq [ascii ''egg''] None [ascii ''Egg soup'']) \<and>
   [ascii ''Egg soup'', ascii ''Omelette''] \<noteq> [] \<and>
   sublist (ascii '' DO NOT suggest any of these existing dishes: ''
               @ join (ascii '', '') [ascii ''Egg soup'', ascii ''Omelette''] @ ascii ''.'')
           (getDishSuggestions_prompt [ascii ''egg''] [ascii ''Egg soup'', ascii ''Omelette'']) \<and>
   sublist (ascii ''Omelette'') (join (ascii '', '') [ascii ''Egg soup'', ascii ''Omelette''])"
proof -
  let ?s = "sess (reached to_results)"
  let ?ex = "[ascii ''Egg soup'', ascii ''Omelette'']"
  have q: "snd (loadMoreSuggestions_start ?s ?s)
     = Some (SuggestReq [ascii ''egg''] None [ascii ''Egg soup''])"
    by (simp add: example_defs handler_defs)
  have n: "?ex \<noteq> []" by simp
  have m: "ascii ''Omelette'' \<in> set ?ex" by simp
  show ?thesis
    using q n m pagination_excludes_shown_names
      [of ?s ?s "SuggestReq [ascii ''egg''] None [ascii ''Egg soup'']" "[ascii ''egg'']" None ?ex]
    by blast
qed

text \<open>
  C10. \<open>addIngredient\<close> does nothing when the buffer is empty or holds only
  whitespace. Otherwise the buffer is leading whitespace, a non-empty core that neither
  starts nor ends with whitespace, and trailing whitespace; one ingredient named by the
  core is appended after the existing ingredients, the buffer is cleared and nothing
  else changes.
\<close>

theorem addIngredient_trims:
  "((\<forall>c\<in>set (inputValue s). is_js_whitespace c) \<longrightarrow> addIngredient uuid s = s) \<and>
   (\<not> (\<forall>c\<in>set (inputValue s). is_js_whitespace c) \<longrightarrow>
      (\<exists>pre t post.
         inputValue s = pre @ t @ post \<and>
         (\<forall>c\<in>set pre. is_js_whitespace c) \<and> (\<forall>c\<in>set post. is_js_whitespace c) \<and>
         t \<noteq> [] \<and> \<not> is_js_whitespace (hd t) \<and> \<not> is_js_whitespace (last t) \<and>
         addIngredient uuid s
           = s\<lparr>ingredients := ingredients s @ [\<lparr>ing_id = uuid, ing_name = t\<rparr>],
               inputValue := []\<rparr>))"
proof -
  let ?b = "inputValue s"
  have a: "addIngredient uuid s = s" if "\<forall>c\<in>set ?b. is_js_whitespace c"
    using that trim_empty_iff [of ?b] by (simp add: addIngredient_def)
  have b: "\<exists>pre t post.
         ?b = pre @ t @ post \<and>
         (\<forall>c\<in>set pre. is_js_whitespace c) \<and> (\<forall>c\<in>set post. is_js_whitespace c) \<and>
         t \<noteq> [] \<and> \<not> is_js_whitespace (hd t) \<and> \<not> is_js_whitespace (last t) \<and>
         addIngredient uuid s
           = s\<lparr>ingredients := ingredients s @ [\<lparr>ing_id = uuid, ing_name = t\<rparr>],
               inputValue := []\<rparr>"
    if "\<not> (\<forall>c\<in>set ?b. is_js_whitespace c)"
  proof -
    from that have ne: "trim ?b \<noteq> []" using trim_empty_iff [of ?b] by simp
    obtain pre post where sp: "?b = pre @ trim ?b @ post"
      "\<forall>c\<in>set pre. is_js_whitespace c" "\<forall>c\<in>set post. is_js_whitespace c"
      using trim_split [of ?b] by blast
    have ad: "addIngredient uuid s
           = s\<lparr>ingredients := ingredients s @ [\<lparr>ing_id = uuid, ing_name = trim ?b\<rparr>],
               inputValue := []\<rparr>"
      using ne by (simp add: addIngredient_def)
    from sp ne trim_ends [OF ne] ad show ?thesis by blast
  qed
  from a b show ?thesis by blast
qed

theorem addIngredient_trims_witness:
  "addIngredient (ascii ''u1'') (setInputValue (ascii ''  '') init_session)
     = setInputValue (ascii ''  '') init_session \<and>
   inputValue (addIngredient (ascii ''u1'') (setInputValue (ascii '' egg '') init_session)) = [] \<and>
   length (ingredients (addIngredient (ascii ''u1'') (setInputValue (ascii '' egg '') init_session)))
     = Suc (length (ingredients (setInputValue (ascii '' egg '') init_session))) \<and>
   map ing_name (ingredients (addIngredient (ascii ''u1'') (setInputValue (ascii '' egg '') init_session)))
     = [ascii ''egg'']"
proof -
  let ?w = "setInputValue (ascii ''  '') init_session"
  let ?e = "setInputValue (ascii '' egg '') init_session"
  have w: "\<forall>c\<in>set (inputValue ?w). is_js_whitespace c"
    by (simp add: setInputValue_def init_session_def ascii_def is_js_whitespace_def)
  have e: "\<not> (\<forall>c\<in>set (inputValue ?e). is_js_whitespace c)"
    by (simp add: setInputValue_def init_session_def ascii_def is_js_whitespace_def)
  have 1: "addIngredient (ascii ''u1'') ?w = ?w"
    using w addIngredient_trims [of ?w "ascii ''u1''"] by blast
  obtain t where
    "addIngredient (ascii ''u1'') ?e
       = ?e\<lparr>ingredients := ingredients ?e @ [\<lparr>ing_id = ascii ''u1'', ing_name = t\<rparr>],
            inputValue := []\<rparr>"
    using e addIngredient_trims [of ?e "ascii ''u1''"] by blast
  then have 2: "inputValue (addIngredient (ascii ''u1'') ?e) = [] \<and>
     length (ingredients (addIngredient (ascii ''u1'') ?e)) = Suc (length (ingredients ?e))"
    by simp
  have 3: "map ing_name (ingredients (addIngredient (ascii ''u1'') ?e)) = [ascii ''egg'']"
    by (simp add: example_defs handler_defs)
  from 1 2 3 show ?thesis by blast
qed

end
